theory Spec2Isabelle
  imports Complex_Main
begin

section \<open>The serverless function latency chart\<close>

text \<open>
  A shallow embedding of
  \<^verbatim>\<open>apm/server/routes/metrics/serverless/get_serverless_function_latency_chart.ts\<close>.
  The two outbound queries (\<^verbatim>\<open>fetchAndTransformMetrics\<close> and
  \<^verbatim>\<open>getLatencyTimeseries\<close>) are external collaborators: what they settle with,
  a rejection or a value, is an argument of the model.
\<close>

subsection \<open>JavaScript values\<close>

text \<open>
  A JavaScript number is an IEEE 754 binary64 value: a finite value, one of the two
  infinities, or NaN. A finite value is given by the rational it denotes; the two zeros
  are one value, as they are under \<^verbatim>\<open>===\<close> and in JSON.
\<close>

datatype jsnum = Fin rat | PosInf | NegInf | NaN

text \<open>The number of binary digits of a positive integer, 0 for the others.\<close>

function bit_length :: "int \<Rightarrow> nat" where
  "bit_length n = (if n \<le> 0 then 0 else Suc (bit_length (n div 2)))"
  by pat_completeness auto
termination
  by (relation "measure nat") auto

declare bit_length.simps [simp del]

text \<open>The power \<open>2\<^sup>k\<close> for an integer \<open>k\<close> of either sign.\<close>

definition pow2 :: "int \<Rightarrow> rat" where
  "pow2 k = (if 0 \<le> k then 2 ^ nat k else 1 / 2 ^ nat (- k))"

text \<open>
  The binary exponent of a positive rational \<open>q\<close>: the \<open>e\<close> with
  \<open>2\<^sup>e \<le> q < 2\<^sup>e\<^sup>+\<^sup>1\<close>, found from the bit lengths of numerator and denominator.
\<close>

definition floor_log2 :: "rat \<Rightarrow> int" where
  "floor_log2 q =
     (let (p, d) = quotient_of q; e = int (bit_length p) - int (bit_length d)
      in if pow2 e \<le> q then e else e - 1)"

text \<open>The nearest integer, a tie going to the even one.\<close>

definition round_half_even :: "rat \<Rightarrow> int" where
  "round_half_even q =
     (let f = \<lfloor>q\<rfloor>; d = q - of_int f
      in if d < 1 / 2 then f else if 1 / 2 < d then f + 1 else if even f then f else f + 1)"

text \<open>
  The binary64 value of an exact result \<open>q\<close>, rounded to nearest with ties to even. With
  \<open>e\<close> the binary exponent of \<open>\<bar>q\<bar>\<close>, the result is a multiple of \<open>2\<^sup>k\<close> for
  \<open>k = max e (-1022) - 52\<close>: 53 significant bits, and the fixed spacing of the subnormal
  range below \<open>2\<^sup>-\<^sup>1\<^sup>0\<^sup>2\<^sup>2\<close>. It is an infinity when the binary exponent of the rounded
  magnitude is above 1023.
\<close>

definition round_double :: "rat \<Rightarrow> jsnum" where
  "round_double q =
     (if q = 0 then Fin 0
      else let a = \<bar>q\<bar>;
               k = max (floor_log2 a) (- 1022) - 52;
               v = of_int (round_half_even (a / pow2 k)) * pow2 k
           in if 1023 < floor_log2 v then (if 0 < q then PosInf else NegInf)
              else Fin (sgn q * v))"

text \<open>The values a chart field of type \<^verbatim>\<open>Maybe<number>\<close> holds at run time.\<close>

datatype jsval = Undefined | Null | Number jsnum

text \<open>The abstract operation ToNumber, on these values.\<close>

fun ToNumber :: "jsval \<Rightarrow> jsnum" where
  "ToNumber Undefined = NaN"
| "ToNumber Null = Fin 0"
| "ToNumber (Number n) = n"

text \<open>
  The product of two numbers: the exact product of two finite values, rounded.
\<close>

fun js_times :: "jsnum \<Rightarrow> jsnum \<Rightarrow> jsnum" where
  "js_times NaN _ = NaN"
| "js_times _ NaN = NaN"
| "js_times (Fin a) (Fin b) = round_double (a * b)"
| "js_times (Fin a) PosInf = (if a = 0 then NaN else if 0 < a then PosInf else NegInf)"
| "js_times (Fin a) NegInf = (if a = 0 then NaN else if 0 < a then NegInf else PosInf)"
| "js_times PosInf (Fin b) = (if b = 0 then NaN else if 0 < b then PosInf else NegInf)"
| "js_times NegInf (Fin b) = (if b = 0 then NaN else if 0 < b then NegInf else PosInf)"
| "js_times PosInf PosInf = PosInf"
| "js_times PosInf NegInf = NegInf"
| "js_times NegInf PosInf = NegInf"
| "js_times NegInf NegInf = PosInf"

text \<open>The operator \<^verbatim>\<open>a * b\<close>: both operands go through ToNumber.\<close>

definition js_mul :: "jsval \<Rightarrow> jsval \<Rightarrow> jsval" where
  "js_mul a b = Number (js_times (ToNumber a) (ToNumber b))"

text \<open>The operator \<^verbatim>\<open>a ?? b\<close>: \<open>b\<close> when \<open>a\<close> is null or undefined.\<close>

fun nullish :: "jsval \<Rightarrow> jsval \<Rightarrow> jsval" where
  "nullish Undefined b = b"
| "nullish Null b = b"
| "nullish (Number n) b = Number n"

text \<open>
  Modelled from the spec: \<^verbatim>\<open>isFiniteNumber\<close> of
  \<^verbatim>\<open>common/utils/is_finite_number\<close> is imported by the source and not part of
  it. The spec describes a finite-number predicate that lets \<^verbatim>\<open>null\<close>, missing
  and non-finite values pass through untouched.
\<close>

fun isFiniteNumber :: "jsval \<Rightarrow> bool" where
  "isFiniteNumber (Number (Fin r)) = True"
| "isFiniteNumber _ = False"

subsection \<open>Data model\<close>

datatype error = TypeError | Rejected string

text \<open>A point of a series: \<^verbatim>\<open>{ x: number, y: Maybe<number> }\<close>.\<close>

record Coordinate =
  x :: jsnum
  y :: jsval

text \<open>
  The fields a series and a chart have in common. The element type of
  \<^verbatim>\<open>GenericMetricsChart['series']\<close> follows the object literal the source builds
  for the transaction duration. \<open>data\<close> is \<open>None\<close> when the field is undefined, which
  the source provides for with \<^verbatim>\<open>data?.map\<close> and \<^verbatim>\<open>data || []\<close>.
\<close>

record Described =
  title :: string
  key :: string
  type :: string

record Series = Described +
  overallValue :: jsval
  data :: "Coordinate list option"

text \<open>
  Modelled from the spec: the type \<^verbatim>\<open>GenericMetricsChart\<close> of
  \<^verbatim>\<open>../fetch_and_transform_metrics\<close> is imported by the source and not part of
  it. The spec lists its descriptor fields as title, key, type, y-axis unit and
  description, beside the series. Any further field lives in the extension of the record.
\<close>

record GenericMetricsChart = Described +
  yUnit :: string
  description :: string
  series :: "Series list"

text \<open>What \<^verbatim>\<open>getLatencyTimeseries\<close> resolves with, as far as the source reads it.\<close>

record LatencyResult =
  overallAvgDuration :: jsval
  latencyTimeseries :: "Coordinate list"

subsection \<open>Library functions\<close>

text \<open>
  \<^verbatim>\<open>i18n.translate\<close> under the default locale returns the default message.
\<close>

definition i18n_translate :: "string \<Rightarrow> string \<Rightarrow> string" where
  "i18n_translate ident defaultMessage = defaultMessage"

text \<open>
  lodash's \<^verbatim>\<open>isEmpty\<close> on the \<open>data\<close> field: true of null, of undefined and of
  an array of length 0.
\<close>

fun isEmpty :: "'a list option \<Rightarrow> bool" where
  "isEmpty None = True"
| "isEmpty (Some xs) = (length xs = 0)"

text \<open>
  \<^verbatim>\<open>Promise.all\<close> of two promises, each given by what it settles with. It
  fulfills with both values when both fulfill and rejects with the reason of the
  promise that rejects first; \<open>settled_first\<close> says which of the two that is when both
  reject.
\<close>

datatype settled_first = BilledFirst | LatencyFirst

fun Promise_all ::
  "settled_first \<Rightarrow> error + 'a \<Rightarrow> error + 'b \<Rightarrow> error + ('a \<times> 'b)" where
  "Promise_all ord (Inr a) (Inr b) = Inr (a, b)"
| "Promise_all ord (Inl e) (Inr b) = Inl e"
| "Promise_all ord (Inr a) (Inl e) = Inl e"
| "Promise_all ord (Inl e1) (Inl e2) = Inl (case ord of BilledFirst \<Rightarrow> e1 | LatencyFirst \<Rightarrow> e2)"

subsection \<open>The transaction latency adapter\<close>

text \<open>
  \<^verbatim>\<open>getServerlessLatencySeries\<close> (lines 43 to 91). The argument is what the awaited
  \<^verbatim>\<open>getLatencyTimeseries\<close> settles with; a rejection passes through the
  \<^verbatim>\<open>await\<close>.
\<close>

definition getServerlessLatencySeries :: "error + LatencyResult \<Rightarrow> error + Series list" where
  "getServerlessLatencySeries awaited =
     (case awaited of
        Inl e \<Rightarrow> Inl e
      | Inr transactionLatency \<Rightarrow>
          Inr [\<lparr> title = i18n_translate ''xpack.apm.agentMetrics.serverless.transactionDuration''
                          ''Transaction Duration'',
                 key = ''transaction_duration'',
                 type = ''linemark'',
                 overallValue = nullish (overallAvgDuration transactionLatency) (Number (Fin 0)),
                 data = Some (latencyTimeseries transactionLatency) \<rparr>])"

subsection \<open>The merger\<close>

text \<open>
  Lines 155 to 159: the callback of \<^verbatim>\<open>data?.map\<close>. It destructures the point and
  builds a new one.
\<close>

definition convertPoint :: "Coordinate \<Rightarrow> Coordinate" where
  "convertPoint p =
     \<lparr> x = x p,
       y = (if isFiniteNumber (y p) then js_mul (y p) (Number (Fin 1000)) else y p) \<rparr>"

text \<open>
  Lines 153 to 166: the first element of the billed-duration series list, when there is
  one, is pushed with its overall value and its data converted.
\<close>

definition pushBilledDuration :: "Series list \<Rightarrow> Series list \<Rightarrow> Series list" where
  "pushBilledDuration acc billedSeriesList =
     (case billedSeriesList of
        [] \<Rightarrow> acc
      | billedDurationSeries # _ \<Rightarrow>
          (let data' = map_option (map convertPoint) (data billedDurationSeries)
           in acc @ [billedDurationSeries
                \<lparr> overallValue := js_mul (overallValue billedDurationSeries) (Number (Fin 1000)),
                  data := Some (case data' of None \<Rightarrow> [] | Some d \<Rightarrow> d) \<rparr>]))"

text \<open>
  Lines 151 to 175, the code after the joint wait. Reading
  \<^verbatim>\<open>serverlessDurationSeries[0].data\<close> on an empty list throws a TypeError.
\<close>

definition mergeSeries ::
  "'a GenericMetricsChart_scheme \<Rightarrow> Series list \<Rightarrow> error + 'a GenericMetricsChart_scheme" where
  "mergeSeries billedDurationMetrics serverlessDurationSeries =
     (let series1 = pushBilledDuration [] (series billedDurationMetrics)
      in case serverlessDurationSeries of
           [] \<Rightarrow> Inl TypeError
         | first # _ \<Rightarrow>
             (let series2 = (if \<not> isEmpty (data first)
                             then series1 @ serverlessDurationSeries else series1)
              in Inr (billedDurationMetrics \<lparr> series := series2 \<rparr>)))"

text \<open>
  \<^verbatim>\<open>getServerlessFunctionLatencyChart\<close> (lines 93 to 176). \<open>fetched\<close> is what
  \<^verbatim>\<open>fetchAndTransformMetrics\<close> settles with and \<open>awaited\<close> what
  \<^verbatim>\<open>getLatencyTimeseries\<close> settles with.
\<close>

definition getServerlessFunctionLatencyChart ::
  "settled_first \<Rightarrow> error + 'a GenericMetricsChart_scheme \<Rightarrow> error + LatencyResult
     \<Rightarrow> error + 'a GenericMetricsChart_scheme" where
  "getServerlessFunctionLatencyChart ord fetched awaited =
     (case Promise_all ord fetched (getServerlessLatencySeries awaited) of
        Inl e \<Rightarrow> Inl e
      | Inr (billedDurationMetrics, serverlessDurationSeries) \<Rightarrow>
          mergeSeries billedDurationMetrics serverlessDurationSeries)"

subsection \<open>The scenarios of the specification\<close>

text \<open>The binary64 value nearest to 1.005.\<close>

definition double_1_005 :: rat where
  "double_1_005 = 4526116154714063 / 4503599627370496"

text \<open>The binary64 value \<open>2\<^sup>1\<^sup>0\<^sup>2\<^sup>3\<close>, whose product with 1000 overflows.\<close>

definition double_2_1023 :: rat where
  "double_2_1023 = 2 ^ 1023"

definition billedPointsA :: "Coordinate list" where
  "billedPointsA =
     [\<lparr> x = Fin 1000, y = Number (Fin 2) \<rparr>, \<lparr> x = Fin 2000, y = Null \<rparr>,
      \<lparr> x = Fin 3000, y = Number NaN \<rparr>, \<lparr> x = Fin 4000, y = Number (Fin double_1_005) \<rparr>,
      \<lparr> x = Fin 5000, y = Number (Fin double_2_1023) \<rparr>]"

definition billedSeriesA :: Series where
  "billedSeriesA =
     \<lparr> title = ''Billed Duration'', key = ''billedDurationAvg'', type = ''linemark'',
       overallValue = Number (Fin 2), data = Some billedPointsA \<rparr>"

definition billedChartA :: GenericMetricsChart where
  "billedChartA =
     \<lparr> title = ''Lambda Duration'', key = ''avg_duration'', type = ''linemark'',
       yUnit = ''time'', description = ''Transaction duration'', series = [billedSeriesA] \<rparr>"

definition latencyA :: LatencyResult where
  "latencyA =
     \<lparr> overallAvgDuration = Number (Fin 500),
       latencyTimeseries = [\<lparr> x = Fin 1000, y = Number (Fin 500) \<rparr>] \<rparr>"

definition latencyNullPoints :: LatencyResult where
  "latencyNullPoints =
     \<lparr> overallAvgDuration = Null, latencyTimeseries = [\<lparr> x = Fin 1000, y = Null \<rparr>] \<rparr>"

definition latencyEmpty :: LatencyResult where
  "latencyEmpty = \<lparr> overallAvgDuration = Null, latencyTimeseries = [] \<rparr>"

subsection \<open>Auxiliary facts\<close>

lemma isFiniteNumber_iff: "isFiniteNumber v = (\<exists>r. v = Number (Fin r))"
  by (cases v rule: isFiniteNumber.cases) simp_all

lemma convertPoint_x: "x (convertPoint p) = x p"
  by (simp add: convertPoint_def)

subsubsection \<open>Powers of two and binary exponents\<close>

lemma pow2_powi: "pow2 k = 2 powi k"
  by (simp add: pow2_def power_int_def inverse_eq_divide power_one_over flip: power_inverse)

lemma pow2_pos: "0 < pow2 k"
  by (simp add: pow2_powi)

lemma pow2_add: "pow2 (j + k) = pow2 j * pow2 k"
  by (simp add: pow2_powi power_int_add)

lemma pow2_diff: "pow2 (j - k) = pow2 j / pow2 k"
  by (simp add: pow2_powi power_int_diff)

lemma pow2_nat: "pow2 (int n) = 2 ^ n"
  by (simp add: pow2_def)

lemma pow2_mono: "j \<le> k \<Longrightarrow> pow2 j \<le> pow2 k"
  by (simp add: pow2_powi power_int_increasing)

lemma pow2_strict_mono: "j < k \<Longrightarrow> pow2 j < pow2 k"
  by (simp add: pow2_powi power_int_strict_increasing)

lemma pow2_le_iff: "pow2 j \<le> pow2 k \<longleftrightarrow> j \<le> k"
  using pow2_mono [of j k] pow2_strict_mono [of k j] by (auto simp: not_le [symmetric])

lemma pow2_less_iff: "pow2 j < pow2 k \<longleftrightarrow> j < k"
  using pow2_le_iff [of k j] by (auto simp: not_le [symmetric])

lemma bit_length_pos: "0 < n \<Longrightarrow> bit_length n = Suc (bit_length (n div 2))"
  by (subst bit_length.simps) simp

lemma bit_length_bounds:
  "0 < n \<Longrightarrow> 2 ^ (bit_length n - 1) \<le> n \<and> n < 2 ^ bit_length n"
proof (induction n rule: bit_length.induct)
  case (1 n)
  show ?case
  proof (cases "0 < n div 2")
    case False
    with "1.prems" have "n = 1" by linarith
    then show ?thesis by (simp add: bit_length.simps)
  next
    case True
    with "1.IH" "1.prems"
    have IH: "2 ^ (bit_length (n div 2) - 1) \<le> n div 2" "n div 2 < 2 ^ bit_length (n div 2)"
      by simp_all
    obtain c where c: "bit_length (n div 2) = Suc c"
      using bit_length_pos [OF True] by simp
    have bl: "bit_length n = Suc (Suc c)"
      using bit_length_pos [OF "1.prems"] c by simp
    from IH c have "2 ^ c \<le> n div 2" "n div 2 < 2 * 2 ^ c" by simp_all
    then have "2 * 2 ^ c \<le> n" "n < 2 * (2 * 2 ^ c)" by linarith+
    then show ?thesis by (simp add: bl)
  qed
qed

lemma bit_length_pow2:
  assumes "0 < n"
  shows "pow2 (int (bit_length n) - 1) \<le> of_int n" and "of_int n < pow2 (int (bit_length n))"
proof -
  obtain c where c: "bit_length n = Suc c"
    using bit_length_pos [OF assms] by simp
  from bit_length_bounds [OF assms] c have "2 ^ c \<le> n" "n < 2 ^ Suc c" by simp_all
  then have "(of_int (2 ^ c) :: rat) \<le> of_int n" "(of_int n :: rat) < of_int (2 ^ Suc c)"
    by (simp_all only: of_int_le_iff of_int_less_iff)
  moreover have "pow2 (int (bit_length n) - 1) = of_int (2 ^ c)"
    using pow2_nat [of c] by (simp add: c)
  moreover have "pow2 (int (bit_length n)) = of_int (2 ^ Suc c)"
    using pow2_nat [of "Suc c"] by (simp add: c)
  ultimately show "pow2 (int (bit_length n) - 1) \<le> of_int n"
    "of_int n < pow2 (int (bit_length n))"
    by simp_all
qed

lemma floor_log2_bounds:
  assumes "0 < q"
  shows "pow2 (floor_log2 q) \<le> q" and "q < pow2 (floor_log2 q + 1)"
proof -
  obtain p d where pd: "quotient_of q = (p, d)" by (cases "quotient_of q")
  then have d: "0 < d" and q: "q = of_int p / of_int d"
    by (rule quotient_of_denom_pos, rule quotient_of_div)
  from assms q d have p: "0 < p" by (simp add: zero_less_divide_iff)
  define e where "e = int (bit_length p) - int (bit_length d)"
  have fl: "floor_log2 q = (if pow2 e \<le> q then e else e - 1)"
    by (simp add: floor_log2_def pd e_def)
  have dr: "(0::rat) < of_int d" and pr: "(0::rat) < of_int p" using d p by simp_all
  have "q < pow2 (int (bit_length p)) / pow2 (int (bit_length d) - 1)"
    unfolding q
    by (rule frac_less) (use bit_length_pow2 [OF p] bit_length_pow2 [OF d] pr pow2_pos in auto)
  also have "\<dots> = pow2 (e + 1)"
    by (simp add: e_def flip: pow2_diff) (simp add: algebra_simps)
  finally have up: "q < pow2 (e + 1)" .
  have "pow2 (int (bit_length p) - 1) / pow2 (int (bit_length d)) < q"
    unfolding q
    by (rule frac_less2) (use bit_length_pow2 [OF p] bit_length_pow2 [OF d] dr pow2_pos in auto)
  moreover have "pow2 (int (bit_length p) - 1) / pow2 (int (bit_length d)) = pow2 (e - 1)"
    by (simp add: e_def flip: pow2_diff) (simp add: algebra_simps)
  ultimately have lo: "pow2 (e - 1) < q" by simp
  show "pow2 (floor_log2 q) \<le> q" using lo by (simp add: fl less_imp_le)
  show "q < pow2 (floor_log2 q + 1)" using up by (simp add: fl not_le)
qed

lemma floor_log2_ge: "0 < q \<Longrightarrow> pow2 e \<le> q \<Longrightarrow> e \<le> floor_log2 q"
  using floor_log2_bounds(2) [of q] pow2_less_iff [of e "floor_log2 q + 1"] by simp

lemma floor_log2_less: "0 < q \<Longrightarrow> q < pow2 e \<Longrightarrow> floor_log2 q < e"
  using floor_log2_bounds(1) [of q] pow2_less_iff [of "floor_log2 q" e] by simp

subsubsection \<open>Rounding to binary64\<close>

lemma round_half_even_cases:
  "round_half_even t = \<lfloor>t\<rfloor> \<or> round_half_even t = \<lfloor>t\<rfloor> + 1"
  by (simp add: round_half_even_def Let_def)

lemma round_half_even_of_int: "round_half_even (of_int n) = n"
  by (simp add: round_half_even_def)

lemma round_half_even_error: "\<bar>of_int (round_half_even t) - t\<bar> \<le> 1 / 2"
proof -
  have "of_int \<lfloor>t\<rfloor> \<le> t" "t < of_int \<lfloor>t\<rfloor> + 1" by linarith+
  then show ?thesis
    by (auto simp: round_half_even_def Let_def abs_le_iff not_less)
qed

lemma round_half_even_ge: "of_int n \<le> t \<Longrightarrow> n \<le> round_half_even t"
  using round_half_even_cases [of t] le_floor_iff [of n t] by auto

lemma round_half_even_le:
  assumes "t \<le> of_int n"
  shows "round_half_even t \<le> n"
proof (cases "t = of_int n")
  case True
  then show ?thesis by (simp add: round_half_even_of_int)
next
  case False
  with assms have "t < of_int n" by simp
  then have "\<lfloor>t\<rfloor> < n" by (simp add: floor_less_iff)
  with round_half_even_cases [of t] show ?thesis by auto
qed

lemma round_double_unfold:
  assumes "q \<noteq> 0"
  shows "round_double q =
     (if 1023 < floor_log2 (of_int (round_half_even
              (\<bar>q\<bar> / pow2 (max (floor_log2 \<bar>q\<bar>) (- 1022) - 52)))
            * pow2 (max (floor_log2 \<bar>q\<bar>) (- 1022) - 52))
      then (if 0 < q then PosInf else NegInf)
      else Fin (sgn q * (of_int (round_half_even
              (\<bar>q\<bar> / pow2 (max (floor_log2 \<bar>q\<bar>) (- 1022) - 52)))
            * pow2 (max (floor_log2 \<bar>q\<bar>) (- 1022) - 52))))"
  using assms by (simp add: round_double_def Let_def)

lemma pow2_numeral: "pow2 (numeral w) = 2 ^ numeral w"
  using pow2_nat [of "numeral w"] by simp

lemma round_double_overflows:
  assumes "2 ^ 1024 \<le> \<bar>q\<bar>"
  shows "round_double q = (if 0 < q then PosInf else NegInf)"
proof -
  define e where "e = floor_log2 \<bar>q\<bar>"
  define k where "k = max e (- 1022) - 52"
  define v where "v = of_int (round_half_even (\<bar>q\<bar> / pow2 k)) * pow2 k"
  have big: "pow2 1024 \<le> \<bar>q\<bar>" using assms by (simp add: pow2_numeral)
  have "0 < pow2 1024" by (rule pow2_pos)
  with big have a: "0 < \<bar>q\<bar>" by linarith
  then have q: "q \<noteq> 0" by simp
  have e: "1024 \<le> e" unfolding e_def using a big by (rule floor_log2_ge)
  then have k: "k = e - 52" by (simp add: k_def)
  have "pow2 e \<le> \<bar>q\<bar>" unfolding e_def using a by (rule floor_log2_bounds)
  then have "pow2 e / pow2 k \<le> \<bar>q\<bar> / pow2 k"
    using pow2_pos [of k] by (simp add: divide_right_mono)
  moreover have "pow2 e / pow2 k = of_int (2 ^ 52)"
    by (simp add: k pow2_numeral flip: pow2_diff)
  ultimately have "of_int (2 ^ 52) \<le> \<bar>q\<bar> / pow2 k" by simp
  then have "2 ^ 52 \<le> round_half_even (\<bar>q\<bar> / pow2 k)" by (rule round_half_even_ge)
  then have "(of_int (2 ^ 52) :: rat) \<le> of_int (round_half_even (\<bar>q\<bar> / pow2 k))"
    by (simp only: of_int_le_iff)
  then have "of_int (2 ^ 52) * pow2 k \<le> v"
    unfolding v_def using pow2_pos [of k] by (simp add: mult_right_mono)
  moreover have "of_int (2 ^ 52) * pow2 k = pow2 e"
    using pow2_add [of 52 k] by (simp add: k pow2_numeral)
  ultimately have ve: "pow2 e \<le> v" by simp
  then have vpos: "0 < v" using pow2_pos [of e] by linarith
  have "e \<le> floor_log2 v" using vpos ve by (rule floor_log2_ge)
  with e have "1023 < floor_log2 v" by simp
  then show ?thesis
    unfolding round_double_unfold [OF q] v_def k_def e_def by simp
qed

lemma floor_log2_0: "floor_log2 0 = - 2"
  by (simp add: floor_log2_def bit_length.simps pow2_def)

lemma round_double_error:
  assumes "round_double q = Fin v"
  shows "\<bar>v - q\<bar> \<le> pow2 (max (floor_log2 \<bar>q\<bar>) (- 1022) - 53)"
proof (cases "q = 0")
  case True
  with assms have "v = 0" by (simp add: round_double_def)
  with True show ?thesis
    using pow2_pos [of "max (floor_log2 0) (- 1022) - 53"] by simp
next
  case False
  define k where "k = max (floor_log2 \<bar>q\<bar>) (- 1022) - 52"
  define t where "t = \<bar>q\<bar> / pow2 k"
  define w where "w = of_int (round_half_even t) * pow2 k"
  from assms have v: "v = sgn q * w"
    unfolding round_double_unfold [OF False] w_def t_def k_def
    by (simp split: if_splits)
  have q: "\<bar>q\<bar> = t * pow2 k" using pow2_pos [of k] by (simp add: t_def)
  have "q = sgn q * \<bar>q\<bar>" by (simp add: mult_sgn_abs)
  then have "v - q = sgn q * (w - \<bar>q\<bar>)"
    unfolding v by (simp add: right_diff_distrib)
  then have "\<bar>v - q\<bar> = \<bar>sgn q * (w - \<bar>q\<bar>)\<bar>" by simp
  also have "\<dots> = \<bar>w - \<bar>q\<bar>\<bar>" using False by (simp add: abs_mult abs_sgn_eq)
  also have "\<dots> = \<bar>of_int (round_half_even t) - t\<bar> * pow2 k"
    using pow2_pos [of k] by (simp add: w_def q abs_mult flip: left_diff_distrib)
  also have "\<dots> \<le> (1 / 2) * pow2 k"
    using round_half_even_error [of t] pow2_pos [of k] by (simp add: mult_right_mono)
  also have "\<dots> = pow2 (k - 1)"
    by (simp add: pow2_diff) (simp add: pow2_def)
  finally show ?thesis by (simp add: k_def)
qed

lemma round_double_relative_error:
  assumes "round_double q = Fin v" and "pow2 (- 1022) \<le> \<bar>q\<bar>"
  shows "\<bar>v - q\<bar> \<le> \<bar>q\<bar> / 2 ^ 53"
proof -
  have a: "0 < \<bar>q\<bar>" using assms(2) pow2_pos [of "- 1022"] by linarith
  then have e: "- 1022 \<le> floor_log2 \<bar>q\<bar>" using assms(2) by (rule floor_log2_ge)
  have "\<bar>v - q\<bar> \<le> pow2 (floor_log2 \<bar>q\<bar> - 53)"
    using round_double_error [OF assms(1)] e by (simp add: max_def)
  also have "\<dots> = pow2 (floor_log2 \<bar>q\<bar>) / 2 ^ 53"
    by (simp add: pow2_diff pow2_numeral)
  also have "\<dots> \<le> \<bar>q\<bar> / 2 ^ 53"
    using floor_log2_bounds(1) [OF a] by (simp add: divide_right_mono)
  finally show ?thesis .
qed

lemma round_double_exact:
  assumes q: "q = of_int m * pow2 j" and m: "\<bar>m\<bar> < 2 ^ 53" and j: "- 1074 \<le> j"
    and fin: "\<bar>q\<bar> < 2 ^ 1024"
  shows "round_double q = Fin q"
proof (cases "q = 0")
  case True
  then show ?thesis by (simp add: round_double_def)
next
  case False
  define k where "k = max (floor_log2 \<bar>q\<bar>) (- 1022) - 52"
  have a: "0 < \<bar>q\<bar>" using False by simp
  have aq: "\<bar>q\<bar> = of_int \<bar>m\<bar> * pow2 j"
    using pow2_pos [of j] by (simp add: q abs_mult)
  have "(of_int \<bar>m\<bar> :: rat) < of_int (2 ^ 53)" using m by (simp only: of_int_less_iff)
  then have "\<bar>q\<bar> < of_int (2 ^ 53) * pow2 j"
    unfolding aq using pow2_pos [of j] by (simp add: mult_strict_right_mono)
  also have "\<dots> = pow2 (53 + j)" by (simp add: pow2_add pow2_numeral)
  finally have "floor_log2 \<bar>q\<bar> < 53 + j" using a by (intro floor_log2_less)
  with j have kj: "k \<le> j" by (simp add: k_def)
  have "\<bar>q\<bar> / pow2 k = of_int \<bar>m\<bar> * pow2 (j - k)"
    by (simp add: aq pow2_diff)
  also have "pow2 (j - k) = of_int (2 ^ nat (j - k))"
    using kj by (simp add: pow2_def)
  finally have t: "\<bar>q\<bar> / pow2 k = of_int (\<bar>m\<bar> * 2 ^ nat (j - k))" by simp
  have w: "of_int (round_half_even (\<bar>q\<bar> / pow2 k)) * pow2 k = \<bar>q\<bar>"
    unfolding t round_half_even_of_int unfolding t [symmetric]
    using pow2_pos [of k] by simp
  have "\<bar>q\<bar> < pow2 1024" using fin by (simp add: pow2_numeral)
  then have "floor_log2 \<bar>q\<bar> < 1024" using a by (intro floor_log2_less)
  then show ?thesis
    unfolding round_double_unfold [OF False] w [unfolded k_def]
    by (simp add: mult_sgn_abs)
qed

lemma round_double_finite:
  assumes "\<bar>q\<bar> < 2 ^ 1024 - 2 ^ 970"
  shows "\<exists>v. round_double q = Fin v"
proof (cases "q = 0")
  case True
  then show ?thesis by (simp add: round_double_def)
next
  case False
  define k where "k = max (floor_log2 \<bar>q\<bar>) (- 1022) - 52"
  define t where "t = \<bar>q\<bar> / pow2 k"
  define w where "w = of_int (round_half_even t) * pow2 k"
  have a: "0 < \<bar>q\<bar>" using False by simp
  have "\<bar>q\<bar> < pow2 1024" using assms by (simp add: pow2_numeral)
  then have "floor_log2 \<bar>q\<bar> < 1024" using a by (intro floor_log2_less)
  then have k: "k - 1 \<le> 970" by (simp add: k_def)
  have q: "\<bar>q\<bar> = t * pow2 k" using pow2_pos [of k] by (simp add: t_def)
  have "w - \<bar>q\<bar> = (of_int (round_half_even t) - t) * pow2 k"
    by (simp add: w_def q left_diff_distrib)
  also have "\<dots> \<le> (1 / 2) * pow2 k"
  proof (rule mult_right_mono)
    show "of_int (round_half_even t) - t \<le> 1 / 2"
      using round_half_even_error [of t] by linarith
    show "0 \<le> pow2 k" using pow2_pos [of k] by simp
  qed
  also have "\<dots> = pow2 (k - 1)"
    by (simp add: pow2_diff) (simp add: pow2_def)
  also have "\<dots> \<le> pow2 970" using k by (rule pow2_mono)
  finally have "w < pow2 1024" using assms by (simp add: pow2_numeral)
  have "floor_log2 w \<le> 1023"
  proof (cases "0 < w")
    case True
    then have "floor_log2 w < 1024" using \<open>w < pow2 1024\<close> by (rule floor_log2_less)
    then show ?thesis by simp
  next
    case False
    have "0 \<le> t" using pow2_pos [of k] by (simp add: t_def)
    then have "0 \<le> round_half_even t" using round_half_even_ge [of 0 t] by simp
    then have "0 \<le> w" using pow2_pos [of k] by (simp add: w_def)
    with False have "w = 0" by simp
    then show ?thesis by (simp add: floor_log2_0)
  qed
  then show ?thesis
    unfolding round_double_unfold [OF \<open>q \<noteq> 0\<close>] w_def t_def k_def by simp
qed

lemma round_double_half_ulp:
  assumes "round_double q = Fin v"
  shows "\<bar>v - q\<bar> \<le> max (\<bar>q\<bar> / 2 ^ 53) (1 / 2 ^ 1075)"
proof (cases "q = 0")
  case True
  with assms have "v = 0" by (simp add: round_double_def)
  with True show ?thesis by simp
next
  case False
  then have a: "0 < \<bar>q\<bar>" by simp
  show ?thesis
  proof (cases "- 1022 \<le> floor_log2 \<bar>q\<bar>")
    case True
    have "\<bar>v - q\<bar> \<le> pow2 (floor_log2 \<bar>q\<bar> - 53)"
      using round_double_error [OF assms] True by (simp add: max_def)
    also have "\<dots> = pow2 (floor_log2 \<bar>q\<bar>) / 2 ^ 53"
      by (simp add: pow2_diff pow2_numeral)
    also have "\<dots> \<le> \<bar>q\<bar> / 2 ^ 53"
      using floor_log2_bounds(1) [OF a] by (simp add: divide_right_mono)
    finally show ?thesis by (simp add: le_max_iff_disj)
  next
    case False
    have "\<bar>v - q\<bar> \<le> pow2 (- 1075)"
      using round_double_error [OF assms] False by (simp add: max_def)
    also have "\<dots> = 1 / 2 ^ 1075" by (simp add: pow2_def)
    finally show ?thesis by (simp add: le_max_iff_disj)
  qed
qed

lemma round_double_spec:
  "round_double q \<noteq> NaN \<and>
   (\<forall>v. round_double q = Fin v \<longrightarrow> \<bar>v - q\<bar> \<le> max (\<bar>q\<bar> / 2 ^ 53) (1 / 2 ^ 1075)) \<and>
   (\<bar>q\<bar> < 2 ^ 1024 - 2 ^ 970 \<longrightarrow> (\<exists>v. round_double q = Fin v)) \<and>
   (2 ^ 1024 \<le> \<bar>q\<bar> \<longrightarrow> round_double q = (if 0 < q then PosInf else NegInf)) \<and>
   (\<forall>m j. q = of_int m * pow2 j \<and> \<bar>m\<bar> < 2 ^ 53 \<and> - 1074 \<le> j \<and> \<bar>q\<bar> < 2 ^ 1024
      \<longrightarrow> round_double q = Fin q)"
proof (intro conjI allI impI)
  show "round_double q \<noteq> NaN" by (simp add: round_double_def Let_def)
  show "\<bar>v - q\<bar> \<le> max (\<bar>q\<bar> / 2 ^ 53) (1 / 2 ^ 1075)" if "round_double q = Fin v" for v
    using that by (rule round_double_half_ulp)
  show "\<exists>v. round_double q = Fin v" if "\<bar>q\<bar> < 2 ^ 1024 - 2 ^ 970"
    using that by (rule round_double_finite)
  show "round_double q = (if 0 < q then PosInf else NegInf)" if "2 ^ 1024 \<le> \<bar>q\<bar>"
    using that by (rule round_double_overflows)
  show "round_double q = Fin q"
    if "q = of_int m * pow2 j \<and> \<bar>m\<bar> < 2 ^ 53 \<and> - 1074 \<le> j \<and> \<bar>q\<bar> < 2 ^ 1024" for m j
    using that round_double_exact [of q m j] by blast
qed

text \<open>
  The rounding at four points: two exact values, a product that is not a binary64 value
  (the double nearest to 1.005, times 1000) and a product beyond the largest finite value
  (\<open>2\<^sup>1\<^sup>0\<^sup>2\<^sup>3\<close> times 1000).
\<close>

lemma round_double_0: "round_double 0 = Fin 0"
  by (simp add: round_double_def)

lemma round_double_2000: "round_double 2000 = Fin 2000"
  by code_simp

lemma round_double_inexact:
  "round_double (double_1_005 * 1000) = Fin (8840070614675904 / 8796093022208)"
  by code_simp

lemma round_double_overflow: "round_double (double_2_1023 * 1000) = PosInf"
  by (subst round_double_overflows) (simp_all add: double_2_1023_def)

lemma round_double_not_NaN: "round_double q \<noteq> NaN"
  by (simp add: round_double_def Let_def)

subsubsection \<open>The merger\<close>

lemma convertPoint_finite:
  "y p = Number (Fin r) \<Longrightarrow> y (convertPoint p) = Number (round_double (r * 1000))"
  by (simp add: convertPoint_def js_mul_def)

lemma js_mul_1000_spec:
  "js_mul (Number (Fin r)) (Number (Fin 1000)) = Number (round_double (r * 1000)) \<and>
   js_mul (Number (Fin r)) (Number (Fin 1000)) \<noteq> Number NaN \<and>
   (\<forall>v. js_mul (Number (Fin r)) (Number (Fin 1000)) = Number (Fin v) \<longrightarrow>
      \<bar>v - r * 1000\<bar> \<le> max (\<bar>r * 1000\<bar> / 2 ^ 53) (1 / 2 ^ 1075)) \<and>
   (\<bar>r * 1000\<bar> < 2 ^ 1024 - 2 ^ 970 \<longrightarrow>
      (\<exists>v. js_mul (Number (Fin r)) (Number (Fin 1000)) = Number (Fin v))) \<and>
   (2 ^ 1024 \<le> \<bar>r * 1000\<bar> \<longrightarrow>
      js_mul (Number (Fin r)) (Number (Fin 1000)) = Number (if 0 < r then PosInf else NegInf)) \<and>
   (\<forall>k j. r * 1000 = of_int k * pow2 j \<and> \<bar>k\<bar> < 2 ^ 53 \<and> - 1074 \<le> j \<and>
      \<bar>r * 1000\<bar> < 2 ^ 1024 \<longrightarrow>
      js_mul (Number (Fin r)) (Number (Fin 1000)) = Number (Fin (r * 1000)))"
proof -
  have pos: "(0 < r * 1000) = (0 < r)"
    by (simp add: zero_less_mult_iff)
  have eq: "js_mul (Number (Fin r)) (Number (Fin 1000)) = Number (round_double (r * 1000))"
    by (simp add: js_mul_def)
  show ?thesis
    unfolding eq jsval.inject jsnum.inject
    using round_double_spec [of "r * 1000"] unfolding pos by blast
qed

lemma convertPoint_finite_mul:
  "y p = Number (Fin r) \<Longrightarrow> y (convertPoint p) = js_mul (Number (Fin r)) (Number (Fin 1000))"
  by (simp add: convertPoint_def)

lemma convertPoint_other: "\<not> isFiniteNumber (y p) \<Longrightarrow> y (convertPoint p) = y p"
  by (simp add: convertPoint_def)

lemma pushBilled_Nil: "pushBilledDuration acc [] = acc"
  by (simp add: pushBilledDuration_def)

lemma pushBilled_Cons:
  "pushBilledDuration acc (b # rest) =
     acc @ [b \<lparr> overallValue := js_mul (overallValue b) (Number (Fin 1000)),
               data := Some (case data b of None \<Rightarrow> [] | Some ds \<Rightarrow> map convertPoint ds) \<rparr>]"
  by (simp add: pushBilledDuration_def split: option.splits)

lemma pushBilled_length: "length (pushBilledDuration [] bs) = (if bs = [] then 0 else 1)"
  by (cases bs) (simp_all add: pushBilled_Nil pushBilled_Cons)

text \<open>When the awaited query fulfills, the adapter returns one series.\<close>

lemma adapter_returns:
  "getServerlessLatencySeries (Inr l) =
     Inr [\<lparr> title = ''Transaction Duration'', key = ''transaction_duration'',
             type = ''linemark'',
             overallValue = nullish (overallAvgDuration l) (Number (Fin 0)),
             data = Some (latencyTimeseries l) \<rparr>]"
  by (simp add: getServerlessLatencySeries_def i18n_translate_def)

text \<open>When both queries fulfill, the whole function returns a chart.\<close>

lemma chart_returns:
  "getServerlessFunctionLatencyChart ord (Inr m) (Inr l) =
     Inr (m \<lparr> series := pushBilledDuration [] (series m) @
                (if latencyTimeseries l = [] then []
                 else [\<lparr> title = ''Transaction Duration'', key = ''transaction_duration'',
                         type = ''linemark'',
                         overallValue = nullish (overallAvgDuration l) (Number (Fin 0)),
                         data = Some (latencyTimeseries l) \<rparr>]) \<rparr>)"
  by (simp add: getServerlessFunctionLatencyChart_def getServerlessLatencySeries_def
      mergeSeries_def i18n_translate_def)

subsection \<open>Unit conversion of the billed duration\<close>

text \<open>
  C1. When the billed-duration fetch produced a series with data \<open>ds\<close>, the chart is
  returned and its first series carries one point for each point of \<open>ds\<close>, in order.
  The timestamp \<open>x\<close> is the same. A finite \<open>y\<close> is replaced by the product
  \<^verbatim>\<open>y * 1000\<close> of binary64 arithmetic: never NaN; when finite, within half a unit in
  the last place of the exact product; finite when the exact product is below
  \<open>2\<^sup>1\<^sup>0\<^sup>2\<^sup>4 - 2\<^sup>9\<^sup>7\<^sup>0\<close> in magnitude, and the infinity of its sign from \<open>2\<^sup>1\<^sup>0\<^sup>2\<^sup>4\<close> on; the
  exact product itself when that is a binary64 value. A \<open>y\<close> that is undefined, null,
  NaN or an infinity is the same value as before.
\<close>

theorem billed_points_converted:
  assumes "series m = b # rest" and "data b = Some ds"
  shows "\<exists>out b' rest' ds'.
           getServerlessFunctionLatencyChart ord (Inr m) (Inr l) = Inr out \<and>
           series out = b' # rest' \<and> key b' = key b \<and>
           data b' = Some ds' \<and> length ds' = length ds \<and>
           (\<forall>i < length ds.
              x (ds' ! i) = x (ds ! i) \<and>
              (\<forall>r. y (ds ! i) = Number (Fin r) \<longrightarrow>
                 y (ds' ! i) = Number (round_double (r * 1000)) \<and>
                 y (ds' ! i) \<noteq> Number NaN \<and>
                 (\<forall>v. y (ds' ! i) = Number (Fin v) \<longrightarrow>
                    \<bar>v - r * 1000\<bar> \<le> max (\<bar>r * 1000\<bar> / 2 ^ 53) (1 / 2 ^ 1075)) \<and>
                 (\<bar>r * 1000\<bar> < 2 ^ 1024 - 2 ^ 970 \<longrightarrow> (\<exists>v. y (ds' ! i) = Number (Fin v))) \<and>
                 (2 ^ 1024 \<le> \<bar>r * 1000\<bar> \<longrightarrow>
                    y (ds' ! i) = Number (if 0 < r then PosInf else NegInf)) \<and>
                 (\<forall>k j. r * 1000 = of_int k * pow2 j \<and> \<bar>k\<bar> < 2 ^ 53 \<and> - 1074 \<le> j \<and>
                    \<bar>r * 1000\<bar> < 2 ^ 1024 \<longrightarrow> y (ds' ! i) = Number (Fin (r * 1000)))) \<and>
              (y (ds ! i) \<in> {Undefined, Null, Number NaN, Number PosInf, Number NegInf}
                 \<longrightarrow> y (ds' ! i) = y (ds ! i)))"
proof -
  let ?ds' = "map convertPoint ds"
  have pt: "x (?ds' ! i) = x (ds ! i) \<and>
        (\<forall>r. y (ds ! i) = Number (Fin r) \<longrightarrow>
           y (?ds' ! i) = Number (round_double (r * 1000)) \<and>
           y (?ds' ! i) \<noteq> Number NaN \<and>
           (\<forall>v. y (?ds' ! i) = Number (Fin v) \<longrightarrow>
              \<bar>v - r * 1000\<bar> \<le> max (\<bar>r * 1000\<bar> / 2 ^ 53) (1 / 2 ^ 1075)) \<and>
           (\<bar>r * 1000\<bar> < 2 ^ 1024 - 2 ^ 970 \<longrightarrow> (\<exists>v. y (?ds' ! i) = Number (Fin v))) \<and>
           (2 ^ 1024 \<le> \<bar>r * 1000\<bar> \<longrightarrow>
              y (?ds' ! i) = Number (if 0 < r then PosInf else NegInf)) \<and>
           (\<forall>k j. r * 1000 = of_int k * pow2 j \<and> \<bar>k\<bar> < 2 ^ 53 \<and> - 1074 \<le> j \<and>
              \<bar>r * 1000\<bar> < 2 ^ 1024 \<longrightarrow> y (?ds' ! i) = Number (Fin (r * 1000)))) \<and>
        (y (ds ! i) \<in> {Undefined, Null, Number NaN, Number PosInf, Number NegInf}
           \<longrightarrow> y (?ds' ! i) = y (ds ! i))" if i: "i < length ds" for i
  proof (intro conjI allI impI)
    show "x (?ds' ! i) = x (ds ! i)"
      using i by (simp add: convertPoint_x)
    show "y (?ds' ! i) = y (ds ! i)"
      if "y (ds ! i) \<in> {Undefined, Null, Number NaN, Number PosInf, Number NegInf}"
      using i that by (auto simp: convertPoint_other)
  next
    fix r
    assume r: "y (ds ! i) = Number (Fin r)"
    have eq: "y (?ds' ! i) = js_mul (Number (Fin r)) (Number (Fin 1000))"
      using i r by (simp add: convertPoint_finite_mul)
    note spec = js_mul_1000_spec [of r, folded eq]
    show "y (?ds' ! i) = Number (round_double (r * 1000))"
      using spec by blast
    show "y (?ds' ! i) \<noteq> Number NaN"
      using spec by blast
    show "\<bar>v - r * 1000\<bar> \<le> max (\<bar>r * 1000\<bar> / 2 ^ 53) (1 / 2 ^ 1075)"
      if "y (?ds' ! i) = Number (Fin v)" for v
      using spec that by blast
    show "\<exists>v. y (?ds' ! i) = Number (Fin v)" if "\<bar>r * 1000\<bar> < 2 ^ 1024 - 2 ^ 970"
      using spec that by blast
    show "y (?ds' ! i) = Number (if 0 < r then PosInf else NegInf)" if "2 ^ 1024 \<le> \<bar>r * 1000\<bar>"
      using spec that by blast
    show "y (?ds' ! i) = Number (Fin (r * 1000))"
      if "r * 1000 = of_int k * pow2 j \<and> \<bar>k\<bar> < 2 ^ 53 \<and> - 1074 \<le> j \<and> \<bar>r * 1000\<bar> < 2 ^ 1024"
      for k j
      using spec that by blast
  qed
  define b' where
    "b' = b \<lparr> overallValue := js_mul (overallValue b) (Number (Fin 1000)),
              data := Some ?ds' \<rparr>"
  define rest' where
    "rest' = (if latencyTimeseries l = [] then []
              else [\<lparr> title = ''Transaction Duration'', key = ''transaction_duration'',
                      type = ''linemark'',
                      overallValue = nullish (overallAvgDuration l) (Number (Fin 0)),
                      data = Some (latencyTimeseries l) \<rparr>])"
  have out: "getServerlessFunctionLatencyChart ord (Inr m) (Inr l)
               = Inr (m \<lparr> series := b' # rest' \<rparr>)"
    unfolding chart_returns b'_def rest'_def using assms by (simp add: pushBilled_Cons)
  have ser: "series (m \<lparr> series := b' # rest' \<rparr>) = b' # rest'"
    by simp
  have k: "key b' = key b"
    by (simp add: b'_def)
  have d: "data b' = Some ?ds'"
    by (simp add: b'_def)
  have len: "length ?ds' = length ds"
    by simp
  from out ser k d len pt show ?thesis
    by blast
qed

text \<open>
  The billed points 2, null, NaN, 1.005 and \<open>2\<^sup>1\<^sup>0\<^sup>2\<^sup>3\<close> come out as 2000, null, NaN,
  1004.9999999999999 (the double that the product of 1.005 and 1000 rounds to) and
  Infinity.
\<close>

theorem billed_points_converted_witness:
  "series billedChartA = billedSeriesA # [] \<and> data billedSeriesA = Some billedPointsA \<and>
   (\<exists>out b' rest' ds'.
      getServerlessFunctionLatencyChart BilledFirst (Inr billedChartA) (Inr latencyA) = Inr out \<and>
      series out = b' # rest' \<and> data b' = Some ds' \<and> length ds' = 5 \<and>
      x (ds' ! 0) = Fin 1000 \<and> y (ds' ! 0) = Number (Fin 2000) \<and>
      x (ds' ! 1) = Fin 2000 \<and> y (ds' ! 1) = Null \<and>
      x (ds' ! 2) = Fin 3000 \<and> y (ds' ! 2) = Number NaN \<and>
      x (ds' ! 3) = Fin 4000 \<and> y (ds' ! 3) = Number (Fin (8840070614675904 / 8796093022208)) \<and>
      x (ds' ! 4) = Fin 5000 \<and> y (ds' ! 4) = Number PosInf)"
proof -
  have h1: "series billedChartA = billedSeriesA # []"
    by (simp add: billedChartA_def)
  have h2: "data billedSeriesA = Some billedPointsA"
    by (simp add: billedSeriesA_def)
  have len: "length billedPointsA = 5"
    by (simp add: billedPointsA_def)
  have pA: "billedPointsA ! 0 = \<lparr> x = Fin 1000, y = Number (Fin 2) \<rparr>"
    "billedPointsA ! 1 = \<lparr> x = Fin 2000, y = Null \<rparr>"
    "billedPointsA ! 2 = \<lparr> x = Fin 3000, y = Number NaN \<rparr>"
    "billedPointsA ! 3 = \<lparr> x = Fin 4000, y = Number (Fin double_1_005) \<rparr>"
    "billedPointsA ! 4 = \<lparr> x = Fin 5000, y = Number (Fin double_2_1023) \<rparr>"
    by (simp_all add: billedPointsA_def)
  from billed_points_converted [OF h1 h2, of BilledFirst latencyA]
  obtain out b' rest' ds' where
    res: "getServerlessFunctionLatencyChart BilledFirst (Inr billedChartA) (Inr latencyA) = Inr out"
      "series out = b' # rest'" "data b' = Some ds'" "length ds' = length billedPointsA"
    and pts: "\<And>i. i < length billedPointsA \<Longrightarrow>
      x (ds' ! i) = x (billedPointsA ! i) \<and>
      (\<forall>r. y (billedPointsA ! i) = Number (Fin r) \<longrightarrow>
         y (ds' ! i) = Number (round_double (r * 1000))) \<and>
      (y (billedPointsA ! i) \<in> {Undefined, Null, Number NaN, Number PosInf, Number NegInf}
         \<longrightarrow> y (ds' ! i) = y (billedPointsA ! i))"
    by blast
  have p0: "x (ds' ! 0) = Fin 1000 \<and> y (ds' ! 0) = Number (Fin 2000)"
    using pts [of 0] unfolding len pA by (simp add: round_double_2000)
  have p1: "x (ds' ! 1) = Fin 2000 \<and> y (ds' ! 1) = Null"
    using pts [of 1] unfolding len pA by simp
  have p2: "x (ds' ! 2) = Fin 3000 \<and> y (ds' ! 2) = Number NaN"
    using pts [of 2] unfolding len pA by simp
  have p3: "x (ds' ! 3) = Fin 4000 \<and>
            y (ds' ! 3) = Number (Fin (8840070614675904 / 8796093022208))"
    using pts [of 3] unfolding len pA by (simp add: round_double_inexact)
  have p4: "x (ds' ! 4) = Fin 5000 \<and> y (ds' ! 4) = Number PosInf"
    using pts [of 4] unfolding len pA by (simp add: round_double_overflow)
  from res len p0 p1 p2 p3 p4 h1 h2 show ?thesis by auto
qed

text \<open>
  C2. When the billed-duration fetch produced a series, the first series of the returned
  chart has as overall value the product \<^verbatim>\<open>overallValue * 1000\<close> of that series'
  overall value, whatever the value is. The product is taken with no test of finiteness:
  an infinity stays that infinity, NaN stays NaN, null gives 0 and undefined gives NaN.
  For a finite value it is the product of binary64 arithmetic: never NaN; when finite,
  within half a unit in the last place of the exact product; finite when the exact
  product is below \<open>2\<^sup>1\<^sup>0\<^sup>2\<^sup>4 - 2\<^sup>9\<^sup>7\<^sup>0\<close> in magnitude, and the infinity of its sign from
  \<open>2\<^sup>1\<^sup>0\<^sup>2\<^sup>4\<close> on; the exact product itself when that is a binary64 value.
\<close>

theorem billed_overallValue_scaled:
  assumes "series m = b # rest"
  shows "\<exists>out b' rest'.
           getServerlessFunctionLatencyChart ord (Inr m) (Inr l) = Inr out \<and>
           series out = b' # rest' \<and> key b' = key b \<and>
           overallValue b' = js_mul (overallValue b) (Number (Fin 1000)) \<and>
           (\<forall>r. overallValue b = Number (Fin r) \<longrightarrow>
              overallValue b' = Number (round_double (r * 1000)) \<and>
              overallValue b' \<noteq> Number NaN \<and>
              (\<forall>v. overallValue b' = Number (Fin v) \<longrightarrow>
                 \<bar>v - r * 1000\<bar> \<le> max (\<bar>r * 1000\<bar> / 2 ^ 53) (1 / 2 ^ 1075)) \<and>
              (\<bar>r * 1000\<bar> < 2 ^ 1024 - 2 ^ 970 \<longrightarrow> (\<exists>v. overallValue b' = Number (Fin v))) \<and>
              (2 ^ 1024 \<le> \<bar>r * 1000\<bar> \<longrightarrow>
                 overallValue b' = Number (if 0 < r then PosInf else NegInf)) \<and>
              (\<forall>k j. r * 1000 = of_int k * pow2 j \<and> \<bar>k\<bar> < 2 ^ 53 \<and> - 1074 \<le> j \<and>
                 \<bar>r * 1000\<bar> < 2 ^ 1024 \<longrightarrow> overallValue b' = Number (Fin (r * 1000)))) \<and>
           (overallValue b \<in> {Number PosInf, Number NegInf, Number NaN} \<longrightarrow>
              overallValue b' = overallValue b) \<and>
           (overallValue b = Null \<longrightarrow> overallValue b' = Number (Fin 0)) \<and>
           (overallValue b = Undefined \<longrightarrow> overallValue b' = Number NaN)"
proof -
  define b' where
    "b' = b \<lparr> overallValue := js_mul (overallValue b) (Number (Fin 1000)),
              data := Some (case data b of None \<Rightarrow> [] | Some ds \<Rightarrow> map convertPoint ds) \<rparr>"
  define rest' where
    "rest' = (if latencyTimeseries l = [] then []
              else [\<lparr> title = ''Transaction Duration'', key = ''transaction_duration'',
                      type = ''linemark'',
                      overallValue = nullish (overallAvgDuration l) (Number (Fin 0)),
                      data = Some (latencyTimeseries l) \<rparr>])"
  have out: "getServerlessFunctionLatencyChart ord (Inr m) (Inr l)
               = Inr (m \<lparr> series := b' # rest' \<rparr>)"
    unfolding chart_returns b'_def rest'_def using assms by (simp add: pushBilled_Cons)
  have ov: "overallValue b' = js_mul (overallValue b) (Number (Fin 1000))"
    by (simp add: b'_def)
  have fin: "overallValue b' = Number (round_double (r * 1000)) \<and>
      overallValue b' \<noteq> Number NaN \<and>
      (\<forall>v. overallValue b' = Number (Fin v) \<longrightarrow>
         \<bar>v - r * 1000\<bar> \<le> max (\<bar>r * 1000\<bar> / 2 ^ 53) (1 / 2 ^ 1075)) \<and>
      (\<bar>r * 1000\<bar> < 2 ^ 1024 - 2 ^ 970 \<longrightarrow> (\<exists>v. overallValue b' = Number (Fin v))) \<and>
      (2 ^ 1024 \<le> \<bar>r * 1000\<bar> \<longrightarrow>
         overallValue b' = Number (if 0 < r then PosInf else NegInf)) \<and>
      (\<forall>k j. r * 1000 = of_int k * pow2 j \<and> \<bar>k\<bar> < 2 ^ 53 \<and> - 1074 \<le> j \<and>
         \<bar>r * 1000\<bar> < 2 ^ 1024 \<longrightarrow> overallValue b' = Number (Fin (r * 1000)))"
    if "overallValue b = Number (Fin r)" for r
    using js_mul_1000_spec [of r] unfolding ov that .
  have other: "overallValue b \<in> {Number PosInf, Number NegInf, Number NaN} \<longrightarrow>
      overallValue b' = overallValue b"
    unfolding ov by (auto simp: js_mul_def)
  have null: "overallValue b = Null \<longrightarrow> overallValue b' = Number (Fin 0)"
    unfolding ov by (simp add: js_mul_def round_double_0)
  have undef: "overallValue b = Undefined \<longrightarrow> overallValue b' = Number NaN"
    unfolding ov by (simp add: js_mul_def)
  have k: "key b' = key b"
    by (simp add: b'_def)
  have ser: "series (m \<lparr> series := b' # rest' \<rparr>) = b' # rest'"
    by simp
  from out ser k ov fin other null undef show ?thesis
    by blast
qed

text \<open>The overall value 2 of the first scenario comes out as 2000.\<close>

theorem billed_overallValue_scaled_witness:
  "series billedChartA = billedSeriesA # [] \<and> overallValue billedSeriesA = Number (Fin 2) \<and>
   (\<exists>out b' rest'.
      getServerlessFunctionLatencyChart LatencyFirst (Inr billedChartA) (Inr latencyA) = Inr out \<and>
      series out = b' # rest' \<and> overallValue b' = Number (Fin 2000))"
proof -
  have h1: "series billedChartA = billedSeriesA # []"
    by (simp add: billedChartA_def)
  have h2: "overallValue billedSeriesA = Number (Fin 2)"
    by (simp add: billedSeriesA_def)
  from billed_overallValue_scaled [OF h1, of LatencyFirst latencyA]
  obtain out b' rest' where
    res: "getServerlessFunctionLatencyChart LatencyFirst (Inr billedChartA) (Inr latencyA) = Inr out"
      "series out = b' # rest'"
    and fin: "\<forall>r. overallValue billedSeriesA = Number (Fin r) \<longrightarrow>
              overallValue b' = Number (round_double (r * 1000))"
    by blast
  from fin h2 have "overallValue b' = Number (Fin 2000)"
    by (simp add: round_double_2000)
  with res h1 h2 show ?thesis by blast
qed

subsection \<open>Inclusion and order of the series\<close>

text \<open>
  C3. The transaction-duration series \<open>t\<close> that the adapter built is left out of the
  returned chart when its data has length 0, and it is appended as it is, after what
  the billed-duration fetch contributed, when its data has length 1 or more. Nothing
  is asked of the values of the points, so a sequence of null values counts as data.
\<close>

theorem transaction_series_included_iff_data:
  "\<exists>out t.
     getServerlessLatencySeries (Inr l) = Inr [t] \<and> data t = Some (latencyTimeseries l) \<and>
     getServerlessFunctionLatencyChart ord (Inr m) (Inr l) = Inr out \<and>
     (length (latencyTimeseries l) = 0 \<longrightarrow>
        series out = pushBilledDuration [] (series m)) \<and>
     (1 \<le> length (latencyTimeseries l) \<longrightarrow>
        series out = pushBilledDuration [] (series m) @ [t])"
  unfolding chart_returns adapter_returns
  by (auto simp: mergeSeries_def)

text \<open>
  A latency series of one null point is the second series of the chart; an empty one
  leaves the billed duration alone.
\<close>

theorem transaction_series_included_iff_data_witness:
  "(\<exists>out t.
      getServerlessLatencySeries (Inr latencyNullPoints) = Inr [t] \<and>
      getServerlessFunctionLatencyChart BilledFirst (Inr billedChartA) (Inr latencyNullPoints)
        = Inr out \<and>
      1 \<le> length (latencyTimeseries latencyNullPoints) \<and>
      length (series out) = 2 \<and> series out ! 1 = t) \<and>
   (\<exists>out.
      getServerlessFunctionLatencyChart BilledFirst (Inr billedChartA) (Inr latencyEmpty)
        = Inr out \<and>
      length (latencyTimeseries latencyEmpty) = 0 \<and> length (series out) = 1)"
proof -
  have n: "1 \<le> length (latencyTimeseries latencyNullPoints)"
    by (simp add: latencyNullPoints_def)
  have e: "length (latencyTimeseries latencyEmpty) = 0"
    by (simp add: latencyEmpty_def)
  have p: "length (pushBilledDuration [] (series billedChartA)) = 1"
    by (simp add: billedChartA_def pushBilled_Cons)
  from transaction_series_included_iff_data [of latencyNullPoints BilledFirst billedChartA] n p
  have a: "\<exists>out t.
      getServerlessLatencySeries (Inr latencyNullPoints) = Inr [t] \<and>
      getServerlessFunctionLatencyChart BilledFirst (Inr billedChartA) (Inr latencyNullPoints)
        = Inr out \<and>
      1 \<le> length (latencyTimeseries latencyNullPoints) \<and>
      length (series out) = 2 \<and> series out ! 1 = t"
    by (auto simp: nth_append)
  from transaction_series_included_iff_data [of latencyEmpty BilledFirst billedChartA] e p
  have b: "\<exists>out.
      getServerlessFunctionLatencyChart BilledFirst (Inr billedChartA) (Inr latencyEmpty)
        = Inr out \<and>
      length (latencyTimeseries latencyEmpty) = 0 \<and> length (series out) = 1"
    by auto
  from a b show ?thesis by blast
qed

text \<open>
  C4. Whatever the two fetches resolve with, the returned chart has at most two series.
  It has two exactly when the billed-duration fetch produced a series and the latency
  series has data, and then the first is the billed-duration series (same title, key and
  type as the one fetched) and the second is the transaction-duration series.
\<close>

theorem at_most_two_series_billed_first:
  "\<exists>out t.
     getServerlessLatencySeries (Inr l) = Inr [t] \<and>
     getServerlessFunctionLatencyChart ord (Inr m) (Inr l) = Inr out \<and>
     length (series out) \<le> 2 \<and>
     (length (series out) = 2) = (series m \<noteq> [] \<and> latencyTimeseries l \<noteq> []) \<and>
     (\<forall>b rest. series m = b # rest \<and> latencyTimeseries l \<noteq> [] \<longrightarrow>
        (\<exists>b'. series out = [b', t] \<and> title b' = title b \<and> key b' = key b \<and> type b' = type b))"
  unfolding chart_returns adapter_returns
  by (auto simp: pushBilled_length pushBilled_Cons)

text \<open>The first scenario: billed duration first, transaction duration second.\<close>

theorem at_most_two_series_billed_first_witness:
  "\<exists>out t b'.
     getServerlessLatencySeries (Inr latencyA) = Inr [t] \<and>
     getServerlessFunctionLatencyChart BilledFirst (Inr billedChartA) (Inr latencyA) = Inr out \<and>
     series billedChartA = [billedSeriesA] \<and> latencyTimeseries latencyA \<noteq> [] \<and>
     series out = [b', t] \<and> key b' = ''billedDurationAvg'' \<and> key t = ''transaction_duration''"
proof -
  have h1: "series billedChartA = [billedSeriesA]"
    by (simp add: billedChartA_def)
  have h2: "latencyTimeseries latencyA \<noteq> []"
    by (simp add: latencyA_def)
  have h3: "key billedSeriesA = ''billedDurationAvg''"
    by (simp add: billedSeriesA_def)
  from at_most_two_series_billed_first [of latencyA BilledFirst billedChartA] h1 h2 h3
  show ?thesis unfolding adapter_returns by fastforce
qed

text \<open>
  C5. The returned chart is the chart of the billed-duration fetch with its series
  replaced: title, key, type, y-axis unit, description and every further field are those
  of the fetched chart.
\<close>

theorem envelope_from_billed_fetch:
  "\<exists>out.
     getServerlessFunctionLatencyChart ord (Inr m) (Inr l) = Inr out \<and>
     title out = title m \<and> key out = key m \<and> type out = type m \<and>
     yUnit out = yUnit m \<and> description out = description m \<and>
     GenericMetricsChart.more out = GenericMetricsChart.more m \<and>
     out = m \<lparr> series := series out \<rparr>"
  unfolding chart_returns by simp

text \<open>
  C6. The one series of the adapter has the upstream overall average as its overall
  value when that average is a number, and 0 when it is null or undefined; the overall
  value is never null or undefined.
\<close>

theorem adapter_overallValue_defaults_to_zero:
  "\<exists>t.
     getServerlessLatencySeries (Inr l) = Inr [t] \<and>
     (\<forall>n. overallAvgDuration l = Number n \<longrightarrow> overallValue t = Number n) \<and>
     (overallAvgDuration l = Null \<or> overallAvgDuration l = Undefined
        \<longrightarrow> overallValue t = Number (Fin 0)) \<and>
     overallValue t \<noteq> Null \<and> overallValue t \<noteq> Undefined"
  unfolding adapter_returns
  by (cases "overallAvgDuration l") auto

text \<open>An average of 500 is kept; a null average becomes 0.\<close>

theorem adapter_overallValue_defaults_to_zero_witness:
  "overallAvgDuration latencyA = Number (Fin 500) \<and> overallAvgDuration latencyEmpty = Null \<and>
   (\<exists>t. getServerlessLatencySeries (Inr latencyA) = Inr [t] \<and>
        overallValue t = Number (Fin 500)) \<and>
   (\<exists>t. getServerlessLatencySeries (Inr latencyEmpty) = Inr [t] \<and>
        overallValue t = Number (Fin 0))"
proof -
  have a: "overallAvgDuration latencyA = Number (Fin 500)"
    by (simp add: latencyA_def)
  have e: "overallAvgDuration latencyEmpty = Null"
    by (simp add: latencyEmpty_def)
  from adapter_overallValue_defaults_to_zero [of latencyA] a
  have 1: "\<exists>t. getServerlessLatencySeries (Inr latencyA) = Inr [t] \<and>
              overallValue t = Number (Fin 500)"
    by auto
  from adapter_overallValue_defaults_to_zero [of latencyEmpty] e
  have 2: "\<exists>t. getServerlessLatencySeries (Inr latencyEmpty) = Inr [t] \<and>
              overallValue t = Number (Fin 0)"
    by auto
  from a e 1 2 show ?thesis by blast
qed

text \<open>
  C7. When the billed-duration fetch resolves with an empty series list, the returned
  chart holds the transaction-duration series alone if the latency series has data and
  no series otherwise, and its descriptor fields are those of the fetched chart.
\<close>

theorem no_billed_series_when_fetch_empty:
  assumes "series m = []"
  shows "\<exists>out t.
     getServerlessLatencySeries (Inr l) = Inr [t] \<and>
     getServerlessFunctionLatencyChart ord (Inr m) (Inr l) = Inr out \<and>
     series out = (if latencyTimeseries l = [] then [] else [t]) \<and>
     title out = title m \<and> key out = key m \<and> type out = type m \<and>
     yUnit out = yUnit m \<and> description out = description m \<and>
     GenericMetricsChart.more out = GenericMetricsChart.more m"
  unfolding chart_returns adapter_returns using assms
  by (simp add: pushBilled_Nil)

text \<open>The chart of the first scenario with its series removed, against both latencies.\<close>

theorem no_billed_series_when_fetch_empty_witness:
  "series (billedChartA \<lparr> series := [] \<rparr>) = [] \<and>
   (\<exists>out t.
     getServerlessLatencySeries (Inr latencyA) = Inr [t] \<and>
     getServerlessFunctionLatencyChart BilledFirst
       (Inr (billedChartA \<lparr> series := [] \<rparr>)) (Inr latencyA) = Inr out \<and>
     series out = [t] \<and> title out = ''Lambda Duration'') \<and>
   (\<exists>out.
     getServerlessFunctionLatencyChart BilledFirst
       (Inr (billedChartA \<lparr> series := [] \<rparr>)) (Inr latencyEmpty) = Inr out \<and>
     series out = [] \<and> title out = ''Lambda Duration'')"
proof -
  have h: "series (billedChartA \<lparr> series := [] \<rparr>) = []"
    by simp
  have a: "latencyTimeseries latencyA \<noteq> []"
    by (simp add: latencyA_def)
  have e: "latencyTimeseries latencyEmpty = []"
    by (simp add: latencyEmpty_def)
  have t: "title (billedChartA \<lparr> series := [] \<rparr>) = ''Lambda Duration''"
    by (simp add: billedChartA_def)
  from no_billed_series_when_fetch_empty [OF h, of latencyA BilledFirst] a t
  have 1: "\<exists>out t.
     getServerlessLatencySeries (Inr latencyA) = Inr [t] \<and>
     getServerlessFunctionLatencyChart BilledFirst
       (Inr (billedChartA \<lparr> series := [] \<rparr>)) (Inr latencyA) = Inr out \<and>
     series out = [t] \<and> title out = ''Lambda Duration''"
    by auto
  from no_billed_series_when_fetch_empty [OF h, of latencyEmpty BilledFirst] e t
  have 2: "\<exists>out.
     getServerlessFunctionLatencyChart BilledFirst
       (Inr (billedChartA \<lparr> series := [] \<rparr>)) (Inr latencyEmpty) = Inr out \<and>
     series out = [] \<and> title out = ''Lambda Duration''"
    by auto
  from h 1 2 show ?thesis by blast
qed

subsection \<open>Failures\<close>

text \<open>
  C8. For every result of the latency query the adapter returns a list of exactly one
  series. The merger throws a TypeError exactly when it is given an empty list, its read
  of the first element being unguarded, so behind the adapter it never does: the whole
  function returns a chart whenever both queries fulfill.
\<close>

theorem adapter_single_series_so_first_read_safe:
  "(\<exists>t. getServerlessLatencySeries (Inr l) = Inr [t]) \<and>
   (mergeSeries m ts = Inl TypeError) = (ts = []) \<and>
   (\<exists>out. getServerlessFunctionLatencyChart ord (Inr m) (Inr l) = Inr out)"
  unfolding chart_returns adapter_returns
  by (cases ts) (simp_all add: mergeSeries_def Let_def)

text \<open>
  C9. If the billed-duration fetch or the latency query rejects with \<open>e\<close>, the whole
  function rejects and returns no chart. Its error is the error of a fetch that
  failed: \<open>e\<close> when the other fetch fulfilled, and the error of the fetch that rejected
  first when both failed.
\<close>

theorem failure_of_either_fetch_fails_whole:
  assumes "fetched = Inl e \<or> awaited = Inl e"
  shows "\<exists>err.
     getServerlessFunctionLatencyChart ord fetched awaited = Inl err \<and>
     (fetched = Inl err \<or> awaited = Inl err) \<and>
     (\<forall>m. fetched = Inr m \<longrightarrow> err = e) \<and>
     (\<forall>l. awaited = Inr l \<longrightarrow> err = e) \<and>
     (\<forall>e1 e2. fetched = Inl e1 \<and> awaited = Inl e2 \<longrightarrow>
        err = (case ord of BilledFirst \<Rightarrow> e1 | LatencyFirst \<Rightarrow> e2)) \<and>
     (\<forall>out. getServerlessFunctionLatencyChart ord fetched awaited \<noteq> Inr out)"
  using assms
  by (cases fetched; cases awaited; cases ord)
     (auto simp: getServerlessFunctionLatencyChart_def getServerlessLatencySeries_def)

text \<open>
  A rejected billed-duration fetch beside a fulfilled latency query, and the converse.
\<close>

theorem failure_of_either_fetch_fails_whole_witness:
  "getServerlessFunctionLatencyChart BilledFirst (Inl (Rejected ''timeout'')) (Inr latencyA)
     = (Inl (Rejected ''timeout'') :: error + GenericMetricsChart) \<and>
   getServerlessFunctionLatencyChart BilledFirst (Inr billedChartA)
       (Inl (Rejected ''shard failure''))
     = Inl (Rejected ''shard failure'')"
proof -
  have h1: "(Inl (Rejected ''timeout'') :: error + GenericMetricsChart) = Inl (Rejected ''timeout'')
              \<or> Inr latencyA = Inl (Rejected ''timeout'')"
    by simp
  have h2: "Inr billedChartA = Inl (Rejected ''shard failure'')
              \<or> (Inl (Rejected ''shard failure'') :: error + LatencyResult)
                  = Inl (Rejected ''shard failure'')"
    by simp
  from failure_of_either_fetch_fails_whole [OF h1, of BilledFirst]
  have 1: "getServerlessFunctionLatencyChart BilledFirst (Inl (Rejected ''timeout''))
             (Inr latencyA)
     = (Inl (Rejected ''timeout'') :: error + GenericMetricsChart)"
    by auto
  from failure_of_either_fetch_fails_whole [OF h2, of BilledFirst]
  have 2: "getServerlessFunctionLatencyChart BilledFirst (Inr billedChartA)
             (Inl (Rejected ''shard failure''))
     = Inl (Rejected ''shard failure'')"
    by auto
  from 1 2 show ?thesis by blast
qed

subsection \<open>Absent data of the billed duration\<close>

text \<open>
  C10. When the billed-duration fetch produced a series, the first series of the
  returned chart is that series converted and its data is a list; the list is empty
  when the data of the fetched series is undefined.
\<close>

theorem billed_data_always_a_list:
  assumes "series m = b # rest"
  shows "\<exists>out b' rest' ds'.
     getServerlessFunctionLatencyChart ord (Inr m) (Inr l) = Inr out \<and>
     series out = b' # rest' \<and> title b' = title b \<and> key b' = key b \<and>
     data b' = Some ds' \<and> (data b = None \<longrightarrow> ds' = [])"
  unfolding chart_returns using assms
  by (simp add: pushBilled_Cons)

text \<open>The billed series of the first scenario with its data removed.\<close>

theorem billed_data_always_a_list_witness:
  "series (billedChartA \<lparr> series := [billedSeriesA \<lparr> data := None \<rparr>] \<rparr>)
     = billedSeriesA \<lparr> data := None \<rparr> # [] \<and>
   data (billedSeriesA \<lparr> data := None \<rparr>) = None \<and>
   (\<exists>out b' rest'.
     getServerlessFunctionLatencyChart BilledFirst
       (Inr (billedChartA \<lparr> series := [billedSeriesA \<lparr> data := None \<rparr>] \<rparr>)) (Inr latencyA)
       = Inr out \<and>
     series out = b' # rest' \<and> data b' = Some [])"
proof -
  have h: "series (billedChartA \<lparr> series := [billedSeriesA \<lparr> data := None \<rparr>] \<rparr>)
     = billedSeriesA \<lparr> data := None \<rparr> # []"
    by simp
  have d: "data (billedSeriesA \<lparr> data := None \<rparr>) = None"
    by simp
  from billed_data_always_a_list [OF h, of BilledFirst latencyA] d
  have "\<exists>out b' rest'.
     getServerlessFunctionLatencyChart BilledFirst
       (Inr (billedChartA \<lparr> series := [billedSeriesA \<lparr> data := None \<rparr>] \<rparr>)) (Inr latencyA)
       = Inr out \<and>
     series out = b' # rest' \<and> data b' = Some []"
    by auto
  with h d show ?thesis by blast
qed

end
